theory Spec2Isabelle
  imports Main
begin

section \<open>DiskUtility: the simulated disk layer\<close>

text \<open>
  The repository holds the same program twice: once as the single file
  \<^verbatim>\<open>inferno_full_code.cpp\<close> and once split into \<^verbatim>\<open>DiskUtility.cpp\<close>,
  \<^verbatim>\<open>InfernoWindow.cpp\<close> and \<^verbatim>\<open>main.cpp\<close>. The two copies of
  \<^verbatim>\<open>DiskUtility::startImageWrite\<close> differ (four timers against three), so both are
  embedded; the copies of \<^verbatim>\<open>enumerateRemovableDrives\<close> and of
  \<^verbatim>\<open>startBurningProcess\<close> are the same.
\<close>

subsection \<open>Data\<close>

text \<open>\<^verbatim>\<open>struct DriveInfo\<close>. The field \<^verbatim>\<open>size\<close> (a \<^verbatim>\<open>qint64\<close>) is called
  \<open>sizeBytes\<close> here, since \<open>size\<close> is a constant of HOL; the two values the program stores
  in it are far below \<open>2 ^ 63\<close>, and no integer arithmetic is done on it.\<close>

record DriveInfo =
  devicePath :: string
  driveLetter :: string
  model :: string
  sizeBytes :: int
  isRemovable :: bool

text \<open>The values a \<^verbatim>\<open>QVariant\<close> takes in this program.\<close>

datatype QVariant = Invalid | Bool bool | String string

text \<open>\<^verbatim>\<open>QVariant::toString\<close>: an invalid variant gives the empty string.\<close>

fun toString :: "QVariant \<Rightarrow> string" where
  "toString (String s) = s"
| "toString (Bool b) = (if b then ''true'' else ''false'')"
| "toString Invalid = ''''"

text \<open>\<^verbatim>\<open>QMap<QString, QVariant>\<close>.\<close>

type_synonym options = "string \<rightharpoonup> QVariant"

text \<open>The two signals of \<^verbatim>\<open>DiskUtility\<close>.\<close>

datatype signal =
  progressUpdated int string
| writeCompleted bool string

text \<open>A pending \<^verbatim>\<open>QTimer::singleShot\<close>: the time at which it expires, in milliseconds,
  the identifier the event loop gave it when it was registered, and the signals its
  callback emits. Every callback of the program is a lambda that only emits signals; it
  reads no member and no argument.\<close>

record timer =
  deadline :: nat
  timerId :: nat
  emits :: "signal list"

text \<open>What the program writes to \<^verbatim>\<open>qDebug()\<close>.\<close>

datatype debug =
  DebugEnumerated
| DebugStartingWrite string string
| DebugOptions options

datatype platform_error = EnumerationError

text \<open>
  The running process. \<open>clock\<close>, \<open>timers\<close>, \<open>nextTimerId\<close> and \<open>debugLog\<close> are what
  the code reads and writes: the time of the event loop, its pending single-shot timers
  in the order in which they will fire, the identifier of the next timer, and the debug
  output.

  The last two fields are the surroundings the specification speaks about: what the
  platform's device layer would report (a failure, or the attached devices) and the size
  of each file. The program has no statement that reads either of them; they are fields
  of the state so that this can be stated and proved rather than assumed.
\<close>

record process =
  clock :: nat
  timers :: "timer list"
  nextTimerId :: nat
  debugLog :: "debug list"
  blockDevices :: "platform_error + DriveInfo list"
  fileSize :: "string \<rightharpoonup> int"

subsection \<open>The event loop\<close>

definition qDebug :: "debug \<Rightarrow> process \<Rightarrow> process" where
  "qDebug d s = s\<lparr>debugLog := debugLog s @ [d]\<rparr>"

text \<open>The event loop keeps its timers ordered by expiry time; a new timer goes behind
  the timers that expire at the same time or earlier.\<close>

fun timerInsert :: "timer \<Rightarrow> timer list \<Rightarrow> timer list" where
  "timerInsert t [] = [t]"
| "timerInsert t (u # us) =
     (if deadline t < deadline u then t # u # us else u # timerInsert t us)"

text \<open>\<^verbatim>\<open>QTimer::singleShot(msec, callback)\<close>.\<close>

definition singleShot :: "nat \<Rightarrow> signal list \<Rightarrow> process \<Rightarrow> process" where
  "singleShot msec callback s =
     s\<lparr>timers :=
         timerInsert \<lparr>deadline = clock s + msec, timerId = nextTimerId s, emits = callback\<rparr>
           (timers s),
       nextTimerId := Suc (nextTimerId s)\<rparr>"

text \<open>The event loop runs until time \<open>t\<close>: the timers that have expired by then fire in
  order, and the signals they emit are returned in the order of emission.\<close>

definition advance :: "nat \<Rightarrow> process \<Rightarrow> signal list \<times> process" where
  "advance t s =
     (concat (map emits (takeWhile (\<lambda>x. deadline x \<le> t) (timers s))),
      s\<lparr>clock := max (clock s) t,
        timers := dropWhile (\<lambda>x. deadline x \<le> t) (timers s)\<rparr>)"

text \<open>The event loop runs until no timer is pending.\<close>

definition drain :: "process \<Rightarrow> signal list \<times> process" where
  "drain s =
     (concat (map emits (timers s)),
      s\<lparr>clock := foldr (\<lambda>x. max (deadline x)) (timers s) (clock s), timers := []\<rparr>)"

subsection \<open>The operations of DiskUtility\<close>

definition backslash :: char where
  "backslash = CHR 0x5C"

text \<open>\<^verbatim>\<open>DiskUtility::enumerateRemovableDrives\<close>: the result and the process after the
  call.\<close>

definition drive1 :: DriveInfo where
  "drive1 =
     \<lparr>devicePath = [backslash, backslash, CHR ''.'', backslash] @ ''PhysicalDrive1'',
      driveLetter = ''E:'',
      model = ''SanDisk Cruzer Blade (16 GB)'',
      sizeBytes = 16000000000,
      isRemovable = True\<rparr>"

definition drive2 :: DriveInfo where
  "drive2 =
     \<lparr>devicePath = [backslash, backslash, CHR ''.'', backslash] @ ''PhysicalDrive2'',
      driveLetter = ''F:'',
      model = ''Kingston DataTraveler (32 GB)'',
      sizeBytes = 32000000000,
      isRemovable = True\<rparr>"

definition enumerateRemovableDrives :: "process \<Rightarrow> DriveInfo list \<times> process" where
  "enumerateRemovableDrives s =
     (let drives = [];
          drives = drives @ [drive1];
          drives = drives @ [drive2]
      in (drives, qDebug DebugEnumerated s))"

text \<open>\<^verbatim>\<open>DiskUtility::startImageWrite\<close> of \<^verbatim>\<open>inferno_full_code.cpp\<close>: the value
  returned and the process after the call.\<close>

definition startImageWrite ::
  "string \<Rightarrow> string \<Rightarrow> options \<Rightarrow> process \<Rightarrow> bool \<times> process" where
  "startImageWrite imagePath drivePath opts s =
     (let s = qDebug (DebugStartingWrite imagePath drivePath) s;
          s = qDebug (DebugOptions opts) s;
          s = singleShot 1000
                [progressUpdated 25
                   ''Formatting drive and preparing partitions (Inferno Custom Partitioning)...''] s;
          s = singleShot 3000
                [progressUpdated 75
                   ''Writing image data (Superior Asynchronous I/O in progress)...''] s;
          s = singleShot 5000
                [progressUpdated 90
                   ''Verifying image integrity (SHA-256/Digital Signatures)...''] s;
          s = singleShot 6000
                [progressUpdated 100
                   ''Verification and finalization complete. Bootable USB Ready.'',
                 writeCompleted True ''''] s
      in (True, s))"

text \<open>\<^verbatim>\<open>DiskUtility::startImageWrite\<close> of the split \<^verbatim>\<open>DiskUtility.cpp\<close>.\<close>

definition startImageWrite_split ::
  "string \<Rightarrow> string \<Rightarrow> options \<Rightarrow> process \<Rightarrow> bool \<times> process" where
  "startImageWrite_split imagePath drivePath opts s =
     (let s = qDebug (DebugStartingWrite imagePath drivePath) s;
          s = qDebug (DebugOptions opts) s;
          s = singleShot 1000
                [progressUpdated 25 ''Formatting drive and preparing partitions...''] s;
          s = singleShot 3000
                [progressUpdated 75
                   ''Writing image data (Superior Asynchronous I/O in progress)...''] s;
          s = singleShot 5000
                [progressUpdated 100 ''Verification and finalization complete.'',
                 writeCompleted True ''''] s
      in (True, s))"

subsection \<open>Sessions\<close>

text \<open>The timers of \<open>s'\<close> that were registered since the process was in state \<open>s\<close>, in
  the order in which they will fire.\<close>

definition scheduled_since :: "process \<Rightarrow> process \<Rightarrow> timer list" where
  "scheduled_since s s' = filter (\<lambda>t. nextTimerId s \<le> timerId t) (timers s')"

text \<open>A write session is what one call of \<^verbatim>\<open>startImageWrite\<close> sets going. Its
  notifications are the signals of the timers the call registers, in the order in which
  the event loop fires them. Other sessions may be under way in \<open>s\<close>; their timers are
  not counted.\<close>

definition session :: "string \<Rightarrow> string \<Rightarrow> options \<Rightarrow> process \<Rightarrow> signal list" where
  "session imagePath drivePath opts s =
     concat (map emits
       (scheduled_since s (snd (startImageWrite imagePath drivePath opts s))))"

definition session_split :: "string \<Rightarrow> string \<Rightarrow> options \<Rightarrow> process \<Rightarrow> signal list" where
  "session_split imagePath drivePath opts s =
     concat (map emits
       (scheduled_since s (snd (startImageWrite_split imagePath drivePath opts s))))"

fun percentages :: "signal list \<Rightarrow> int list" where
  "percentages [] = []"
| "percentages (progressUpdated p m # xs) = p # percentages xs"
| "percentages (writeCompleted ok e # xs) = percentages xs"

fun is_terminal :: "signal \<Rightarrow> bool" where
  "is_terminal (writeCompleted ok e) = True"
| "is_terminal (progressUpdated p m) = False"

text \<open>The invariant of the event loop: the pending timers are ordered by expiry time,
  and their identifiers have all been handed out already.\<close>

definition loop_inv :: "process \<Rightarrow> bool" where
  "loop_inv s \<longleftrightarrow>
     sorted (map deadline (timers s)) \<and>
     list_all (\<lambda>t. timerId t < nextTimerId s) (timers s)"

subsection \<open>What a caller can ask of DiskUtility\<close>

text \<open>
  The public interface of \<^verbatim>\<open>class DiskUtility\<close> is its two member functions. Beside
  calling them, a caller can only let time pass, so that the event loop fires the timers
  that have expired. The class has no member that stops, removes or changes a timer.
\<close>

datatype request =
  EnumerateRemovableDrives
| StartImageWrite string string options
| Wait nat

text \<open>One request: the timers that fire while it is served, in firing order, and the
  process afterwards. \<open>Wait t\<close> runs the event loop until time \<open>t\<close>, as \<open>advance\<close> does.\<close>

fun perform :: "request \<Rightarrow> process \<Rightarrow> timer list \<times> process" where
  "perform EnumerateRemovableDrives s = ([], snd (enumerateRemovableDrives s))"
| "perform (StartImageWrite imagePath drivePath opts) s =
     ([], snd (startImageWrite imagePath drivePath opts s))"
| "perform (Wait t) s =
     (takeWhile (\<lambda>x. deadline x \<le> t) (timers s), snd (advance t s))"

fun performAll :: "request list \<Rightarrow> process \<Rightarrow> timer list \<times> process" where
  "performAll [] s = ([], s)"
| "performAll (r # rs) s =
     (fst (perform r s) @ fst (performAll rs (snd (perform r s))),
      snd (performAll rs (snd (perform r s))))"

text \<open>The timers of the session that a call set going, where \<open>s\<close> is the process before
  the call and \<open>s'\<close> the process after it.\<close>

definition own :: "process \<Rightarrow> process \<Rightarrow> timer \<Rightarrow> bool" where
  "own s s' x \<longleftrightarrow> nextTimerId s \<le> timerId x \<and> timerId x < nextTimerId s'"

text \<open>
  A session is started in \<open>s\<close>; the caller then makes the requests \<open>rs\<close>, and at last the
  event loop runs until no timer is pending. \<open>delivered\<close> is what the session has
  notified by then: the signals of its timers that fired while the requests were
  served, followed by the signals of its timers that were still pending.
\<close>

definition delivered ::
  "string \<Rightarrow> string \<Rightarrow> options \<Rightarrow> process \<Rightarrow> request list \<Rightarrow> signal list" where
  "delivered imagePath drivePath opts s rs =
     (let s' = snd (startImageWrite imagePath drivePath opts s);
          (fired, s'') = performAll rs s'
      in concat (map emits (filter (own s s') (fired @ timers s''))))"

section \<open>InfernoWindow: the graphical shell\<close>

subsection \<open>The widgets\<close>

text \<open>The text of a combo-box entry. The entry of a drive is
  \<^verbatim>\<open>QString("%1 (%2) - %3").arg(driveLetter).arg(model).arg(sizeStr)\<close>, where
  \<^verbatim>\<open>sizeStr\<close> is the size in units of \<open>2 ^ 30\<close> bytes printed with two decimals;
  \<open>DriveText\<close> keeps the three arguments unformatted, so that no floating-point
  printing is modelled.\<close>

datatype itemText = Plain string | DriveText string string int

text \<open>\<^verbatim>\<open>QComboBox\<close>: the entries (text and user data), the current index (\<open>-1\<close> when
  there is no current entry) and whether the widget is enabled.\<close>

record QComboBox =
  items :: "(itemText \<times> QVariant) list"
  currentIndex :: int
  enabled :: bool

definition clear :: "QComboBox \<Rightarrow> QComboBox" where
  "clear c = c\<lparr>items := [], currentIndex := - 1\<rparr>"

text \<open>\<^verbatim>\<open>QComboBox::addItem\<close>: the first entry of an empty box becomes the current
  one.\<close>

definition addItem :: "itemText \<Rightarrow> QVariant \<Rightarrow> QComboBox \<Rightarrow> QComboBox" where
  "addItem text userData c =
     c\<lparr>items := items c @ [(text, userData)],
       currentIndex := (if items c = [] then 0 else currentIndex c)\<rparr>"

definition setEnabled :: "bool \<Rightarrow> QComboBox \<Rightarrow> QComboBox" where
  "setEnabled b c = c\<lparr>enabled := b\<rparr>"

definition currentData :: "QComboBox \<Rightarrow> QVariant" where
  "currentData c =
     (if 0 \<le> currentIndex c \<and> currentIndex c < int (length (items c))
      then snd (items c ! nat (currentIndex c)) else Invalid)"

definition currentText :: "QComboBox \<Rightarrow> itemText" where
  "currentText c =
     (if 0 \<le> currentIndex c \<and> currentIndex c < int (length (items c))
      then fst (items c ! nat (currentIndex c)) else Plain '''')"

text \<open>\<^verbatim>\<open>QProgressBar::setValue\<close> with the default range: a value outside \<open>0..100\<close>
  is ignored.\<close>

definition setValue :: "int \<Rightarrow> int \<Rightarrow> int" where
  "setValue v old = (if 0 \<le> v \<and> v \<le> 100 then v else old)"

text \<open>\<^verbatim>\<open>QFileInfo(path).fileName()\<close>: what follows the last slash.\<close>

definition fileName :: "string \<Rightarrow> string" where
  "fileName path = rev (takeWhile (\<lambda>c. c \<noteq> CHR ''/'') (rev path))"

text \<open>The answer to the confirmation dialog. The dialog is created with the buttons
  \<^verbatim>\<open>QMessageBox::Yes | QMessageBox::No\<close>, and in such a dialog the Escape key stands for
  the \<^verbatim>\<open>No\<close> button, so these are its two results.\<close>

datatype StandardButton = Yes | No

text \<open>The message boxes the window shows. The question keeps the two arguments of its
  text: the text of the current drive entry and the file name of the image.\<close>

datatype messageBox =
  Warning string string
| Question string itemText string
| Information string string
| Critical string string

text \<open>\<^verbatim>\<open>class InfernoWindow\<close>. A check box is its checked state, the group of advanced
  options its visibility, the start button whether it is enabled, a label its text.
  The title label and the image button never change and are left out.\<close>

record InfernoWindow =
  driveComboBox :: QComboBox
  isoPathLabel :: string
  advancedOptionsCheckBox :: bool
  advancedGroup :: bool
  persistenceCheckBox :: bool
  multiBootCheckBox :: bool
  win11BypassCheckBox :: bool
  startButton :: bool
  progressBar :: int
  statusLabel :: string
  messageBoxes :: "messageBox list"

definition showMessageBox :: "messageBox \<Rightarrow> InfernoWindow \<Rightarrow> InfernoWindow" where
  "showMessageBox m w = w\<lparr>messageBoxes := messageBoxes w @ [m]\<rparr>"

subsection \<open>The slots\<close>

text \<open>\<^verbatim>\<open>InfernoWindow::setupUI\<close>: the window it builds.\<close>

definition setupUI :: InfernoWindow where
  "setupUI =
     \<lparr>driveComboBox = \<lparr>items = [], currentIndex = - 1, enabled = True\<rparr>,
      isoPathLabel = ''No image selected.'',
      advancedOptionsCheckBox = False,
      advancedGroup = False,
      persistenceCheckBox = False,
      multiBootCheckBox = False,
      win11BypassCheckBox = False,
      startButton = False,
      progressBar = 0,
      statusLabel = ''Ready.'',
      messageBoxes = []\<rparr>"

definition updateDriveList :: "InfernoWindow \<times> process \<Rightarrow> InfernoWindow \<times> process" where
  "updateDriveList ws =
     (let (w, s) = ws;
          c = clear (driveComboBox w);
          c = addItem (Plain ''Select a USB Drive...'') Invalid c;
          (drives, s) = enumerateRemovableDrives s
      in if drives = [] then
           (let c = addItem (Plain ''No removable drives detected.'') Invalid c;
                c = setEnabled False c
            in (w\<lparr>driveComboBox := c\<rparr>, s))
         else
           (let c = setEnabled True c;
                c = foldl (\<lambda>c drive.
                      addItem (DriveText (driveLetter drive) (model drive) (sizeBytes drive))
                        (String (devicePath drive)) c) c drives
            in (w\<lparr>driveComboBox := c\<rparr>, s)))"

text \<open>The constructor of \<^verbatim>\<open>inferno_full_code.cpp\<close>: \<^verbatim>\<open>setupUI\<close>, then
  \<^verbatim>\<open>updateDriveList\<close>. (The split \<^verbatim>\<open>InfernoWindow.cpp\<close> calls \<^verbatim>\<open>updateDriveList\<close>
  from within \<^verbatim>\<open>setupUI\<close>, after adding a first entry that \<^verbatim>\<open>updateDriveList\<close>
  clears again; the window is the same.)\<close>

definition newInfernoWindow :: "process \<Rightarrow> InfernoWindow \<times> process" where
  "newInfernoWindow s = updateDriveList (setupUI, s)"

text \<open>\<^verbatim>\<open>selectDiskImage\<close>; \<open>chosen\<close> is what the file dialog returns, the empty string
  when the user dismisses it.\<close>

definition selectDiskImage :: "string \<Rightarrow> InfernoWindow \<Rightarrow> InfernoWindow" where
  "selectDiskImage chosen w =
     (if chosen \<noteq> '''' then
        w\<lparr>isoPathLabel := chosen,
          startButton := True,
          statusLabel := ''Image selected: '' @ fileName chosen\<rparr>
      else w)"

definition gatherOptions :: "InfernoWindow \<Rightarrow> options" where
  "gatherOptions w =
     (let opts = Map.empty;
          opts = opts(''persistence'' \<mapsto> Bool (persistenceCheckBox w));
          opts = opts(''multiBoot'' \<mapsto> Bool (multiBootCheckBox w));
          opts = opts(''win11Bypass'' \<mapsto> Bool (win11BypassCheckBox w))
      in opts)"

text \<open>\<^verbatim>\<open>startBurningProcess\<close>; \<open>reply\<close> is the user's answer to the confirmation
  dialog, used only when the dialog is shown.\<close>

definition startBurningProcess ::
  "StandardButton \<Rightarrow> InfernoWindow \<times> process \<Rightarrow> InfernoWindow \<times> process" where
  "startBurningProcess reply ws =
     (let (w, s) = ws in
      if currentIndex (driveComboBox w) = 0 then
        (showMessageBox (Warning ''Inferno Error'' ''Please select a target USB drive.'') w, s)
      else
        let drivePath = toString (currentData (driveComboBox w));
            imagePath = isoPathLabel w
        in if imagePath = ''No image selected.'' then
             (showMessageBox
                (Warning ''Inferno Error'' ''Please select a disk image (ISO/IMG).'') w, s)
           else
             let opts = gatherOptions w;
                 w = showMessageBox
                       (Question ''CONFIRM DESTRUCTION'' (currentText (driveComboBox w))
                          (fileName imagePath)) w
             in if reply = No then
                  (w\<lparr>statusLabel := ''Operation cancelled by user.''\<rparr>, s)
                else
                  let (started, s) = startImageWrite imagePath drivePath opts s
                  in if started then
                       (w\<lparr>startButton := False,
                          statusLabel := ''Burning process initiated...'',
                          progressBar := setValue 0 (progressBar w)\<rparr>, s)
                     else
                       (showMessageBox
                          (Critical ''Inferno Error''
                             ''Failed to start the image writing process.'') w, s))"

definition toggleAdvancedOptions :: "bool \<Rightarrow> InfernoWindow \<Rightarrow> InfernoWindow" where
  "toggleAdvancedOptions checked w =
     (if checked then w\<lparr>statusLabel := ''Advanced Inferno features enabled.''\<rparr>
      else w\<lparr>statusLabel := ''Advanced Inferno features disabled.''\<rparr>)"

definition handleProgressUpdate :: "int \<Rightarrow> string \<Rightarrow> InfernoWindow \<Rightarrow> InfernoWindow" where
  "handleProgressUpdate percentage message w =
     w\<lparr>progressBar := setValue percentage (progressBar w), statusLabel := message\<rparr>"

definition handleWriteCompletion :: "bool \<Rightarrow> string \<Rightarrow> InfernoWindow \<Rightarrow> InfernoWindow" where
  "handleWriteCompletion success errorMessage w =
     (let w = w\<lparr>startButton := True\<rparr>;
          w = w\<lparr>progressBar :=
                  setValue (if success then 100 else progressBar w) (progressBar w)\<rparr>
      in if success then
           showMessageBox
             (Information ''Inferno Success''
                ''The bootable USB drive has been created successfully!'')
             (w\<lparr>statusLabel := ''SUCCESS: Bootable USB created successfully!''\<rparr>)
         else
           showMessageBox
             (Critical ''Inferno Error'' (''The process failed: '' @ errorMessage))
             (w\<lparr>statusLabel := ''ERROR: '' @ errorMessage\<rparr>))"

text \<open>The two \<^verbatim>\<open>connect\<close> calls that bind the signals of \<^verbatim>\<open>DiskUtility\<close> to the
  window.\<close>

fun deliver :: "InfernoWindow \<Rightarrow> signal \<Rightarrow> InfernoWindow" where
  "deliver w (progressUpdated percentage message) = handleProgressUpdate percentage message w"
| "deliver w (writeCompleted success errorMessage) = handleWriteCompletion success errorMessage w"

subsection \<open>The running application\<close>

text \<open>
  The states of window and process that the application can be in: it starts with the
  constructor in a process without timers; then the user picks an entry of the enabled
  combo box, chooses an image, clicks the enabled start button and answers the dialog,
  toggles the check boxes, or time passes and the expired timers deliver their signals
  to the window.
\<close>

inductive reachable :: "InfernoWindow \<times> process \<Rightarrow> bool" where
  construct: "timers s = [] \<Longrightarrow> reachable (newInfernoWindow s)"
| pick:
    "reachable (w, s) \<Longrightarrow> enabled (driveComboBox w) \<Longrightarrow>
     0 \<le> i \<Longrightarrow> i < int (length (items (driveComboBox w))) \<Longrightarrow>
     reachable (w\<lparr>driveComboBox := (driveComboBox w)\<lparr>currentIndex := i\<rparr>\<rparr>, s)"
| choose: "reachable (w, s) \<Longrightarrow> reachable (selectDiskImage chosen w, s)"
| click: "reachable (w, s) \<Longrightarrow> startButton w \<Longrightarrow> reachable (startBurningProcess reply (w, s))"
| toggle:
    "reachable (w, s) \<Longrightarrow>
     reachable
       (toggleAdvancedOptions b (w\<lparr>advancedOptionsCheckBox := b, advancedGroup := b\<rparr>), s)"
| check:
    "reachable (w, s) \<Longrightarrow>
     reachable
       (w\<lparr>persistenceCheckBox := p, multiBootCheckBox := m, win11BypassCheckBox := b\<rparr>, s)"
| wait:
    "reachable (w, s) \<Longrightarrow>
     reachable (foldl deliver w (fst (advance t s)), snd (advance t s))"

text \<open>The entries of the combo box once the constructor has run: the placeholder and
  the two simulated drives.\<close>

definition driveEntries :: "(itemText \<times> QVariant) list" where
  "driveEntries =
     [(Plain ''Select a USB Drive...'', Invalid),
      (DriveText (driveLetter drive1) (model drive1) (sizeBytes drive1),
       String (devicePath drive1)),
      (DriveText (driveLetter drive2) (model drive2) (sizeBytes drive2),
       String (devicePath drive2))]"

text \<open>What holds of the combo box in every state of the application: its entries are
  \<open>driveEntries\<close>, and one of them is the current entry.\<close>

definition combo_inv :: "InfernoWindow \<Rightarrow> bool" where
  "combo_inv w \<longleftrightarrow>
     items (driveComboBox w) = driveEntries \<and>
     0 \<le> currentIndex (driveComboBox w) \<and> currentIndex (driveComboBox w) < 3"

section \<open>The specification's words and the examples\<close>

text \<open>The progress formula of the specification,
  \<open>percentage = floor (100 * bytesWritten / totalPlannedBytes)\<close>.\<close>

definition spec_percentage :: "int \<Rightarrow> int \<Rightarrow> int" where
  "spec_percentage bytesWritten totalPlannedBytes =
     (100 * bytesWritten) div totalPlannedBytes"

text \<open>A process right after start: the two drives are attached, and there are image
  files of 4 GiB, of 20,000,000,000 bytes and of one byte.\<close>

definition exampleProcess :: process where
  "exampleProcess =
     \<lparr>clock = 0,
      timers = [],
      nextTimerId = 0,
      debugLog = [],
      blockDevices = Inr [drive1, drive2],
      fileSize = [''/images/linux.iso'' \<mapsto> 4294967296,
                  ''/images/huge.iso'' \<mapsto> 20000000000,
                  ''/images/tiny.img'' \<mapsto> 1]\<rparr>"

text \<open>The options the window gathers when no check box is ticked.\<close>

definition noAdvancedOptions :: options where
  "noAdvancedOptions = gatherOptions setupUI"

text \<open>The window after the user has picked the first drive and chosen the 4 GiB
  image.\<close>

definition exampleWindow :: "InfernoWindow \<times> process" where
  "exampleWindow =
     (let (w, s) = newInfernoWindow exampleProcess;
          w = w\<lparr>driveComboBox := (driveComboBox w)\<lparr>currentIndex := 1\<rparr>\<rparr>;
          w = selectDiskImage ''/images/linux.iso'' w
      in (w, s))"

section \<open>The event loop keeps its invariant\<close>

lemma timerInsert_set: "set (timerInsert t us) = insert t (set us)"
  by (induction us) auto

lemma timerInsert_sorted:
  "sorted (map deadline us) \<Longrightarrow> sorted (map deadline (timerInsert t us))"
  by (induction us) (auto simp: timerInsert_set)

lemma filter_timerInsert_old:
  "\<not> P t \<Longrightarrow> filter P (timerInsert t us) = filter P us"
  by (induction us) auto

text \<open>A timer that expires no earlier than the timers selected by \<open>P\<close> comes behind all
  of them.\<close>

lemma filter_timerInsert_new:
  "sorted (map deadline us) \<Longrightarrow> P t \<Longrightarrow>
   \<forall>u \<in> set us. P u \<longrightarrow> deadline u \<le> deadline t \<Longrightarrow>
   filter P (timerInsert t us) = filter P us @ [t]"
proof (induction us)
  case Nil
  then show ?case by simp
next
  case (Cons u us)
  show ?case
  proof (cases "deadline t < deadline u")
    case True
    have "\<not> P v" if "v \<in> set (u # us)" for v
    proof
      assume "P v"
      with Cons.prems(3) that have "deadline v \<le> deadline t" by blast
      moreover from Cons.prems(1) that have "deadline u \<le> deadline v" by auto
      ultimately show False using True by simp
    qed
    then have "filter P (u # us) = []" by (simp add: filter_empty_conv)
    with True Cons.prems(2) show ?thesis by simp
  next
    case False
    with Cons show ?thesis by simp
  qed
qed

lemma loop_inv_qDebug: "loop_inv (qDebug d s) = loop_inv s"
  by (simp add: loop_inv_def qDebug_def)

lemma loop_inv_singleShot: "loop_inv s \<Longrightarrow> loop_inv (singleShot msec cb s)"
  by (auto simp: loop_inv_def singleShot_def timerInsert_sorted list_all_iff timerInsert_set
      less_Suc_eq)

lemma loop_inv_startImageWrite:
  "loop_inv s \<Longrightarrow> loop_inv (snd (startImageWrite imagePath drivePath opts s))"
  by (simp add: startImageWrite_def Let_def loop_inv_singleShot loop_inv_qDebug)

lemma sorted_dropWhile: "sorted (map f xs) \<Longrightarrow> sorted (map f (dropWhile P xs))"
  by (induction xs) auto

lemma loop_inv_advance: "loop_inv s \<Longrightarrow> loop_inv (snd (advance t s))"
  by (auto simp: loop_inv_def advance_def sorted_dropWhile list_all_iff dest: set_dropWhileD)

lemma loop_inv_exampleProcess: "loop_inv exampleProcess"
  by (simp add: loop_inv_def exampleProcess_def)

section \<open>What a write session delivers\<close>

lemma scheduled_since_singleShot:
  assumes "loop_inv s'" and "nextTimerId s \<le> nextTimerId s'"
    and "\<forall>u \<in> set (scheduled_since s s'). deadline u \<le> clock s' + msec"
  shows "scheduled_since s (singleShot msec cb s') =
           scheduled_since s s' @
             [\<lparr>deadline = clock s' + msec, timerId = nextTimerId s', emits = cb\<rparr>]"
  using assms unfolding scheduled_since_def singleShot_def loop_inv_def
  by (simp add: filter_timerInsert_new)

lemma scheduled_since_self: "loop_inv s \<Longrightarrow> scheduled_since s s = []"
  by (auto simp: scheduled_since_def loop_inv_def list_all_iff filter_empty_conv)

lemma scheduled_since_qDebug: "scheduled_since s (qDebug d s') = scheduled_since s s'"
  by (simp add: scheduled_since_def qDebug_def)

lemma singleShot_fields:
  "clock (singleShot msec cb s) = clock s"
  "nextTimerId (singleShot msec cb s) = Suc (nextTimerId s)"
  "debugLog (singleShot msec cb s) = debugLog s"
  by (simp_all add: singleShot_def)

lemma qDebug_fields:
  "clock (qDebug d s) = clock s"
  "nextTimerId (qDebug d s) = nextTimerId s"
  "timers (qDebug d s) = timers s"
  by (simp_all add: qDebug_def)

text \<open>The notifications of a session, whatever the arguments of the call and whatever
  else is pending in the event loop.\<close>

lemma session_signals:
  assumes "loop_inv s"
  shows "session imagePath drivePath opts s =
     [progressUpdated 25
        ''Formatting drive and preparing partitions (Inferno Custom Partitioning)...'',
      progressUpdated 75 ''Writing image data (Superior Asynchronous I/O in progress)...'',
      progressUpdated 90 ''Verifying image integrity (SHA-256/Digital Signatures)...'',
      progressUpdated 100 ''Verification and finalization complete. Bootable USB Ready.'',
      writeCompleted True '''']"
  using assms
  by (simp add: session_def startImageWrite_def Let_def scheduled_since_singleShot
      loop_inv_singleShot loop_inv_qDebug singleShot_fields qDebug_fields
      scheduled_since_qDebug scheduled_since_self)

lemma session_split_signals:
  assumes "loop_inv s"
  shows "session_split imagePath drivePath opts s =
     [progressUpdated 25 ''Formatting drive and preparing partitions...'',
      progressUpdated 75 ''Writing image data (Superior Asynchronous I/O in progress)...'',
      progressUpdated 100 ''Verification and finalization complete.'',
      writeCompleted True '''']"
  using assms
  by (simp add: session_split_def startImageWrite_split_def Let_def scheduled_since_singleShot
      loop_inv_singleShot loop_inv_qDebug singleShot_fields qDebug_fields
      scheduled_since_qDebug scheduled_since_self)

lemma startImageWrite_returns: "fst (startImageWrite imagePath drivePath opts s) = True"
  by (simp add: startImageWrite_def Let_def)

lemma startImageWrite_split_returns:
  "fst (startImageWrite_split imagePath drivePath opts s) = True"
  by (simp add: startImageWrite_split_def Let_def)

text \<open>A call of \<^verbatim>\<open>startImageWrite\<close> leaves the timers that are already pending as they
  are.\<close>

lemma startImageWrite_keeps_timers:
  assumes "loop_inv s"
  shows "filter (\<lambda>x. timerId x < nextTimerId s)
           (timers (snd (startImageWrite imagePath drivePath opts s))) = timers s"
proof -
  have "filter (\<lambda>x. timerId x < nextTimerId s) (timers s) = timers s"
    using assms by (simp add: loop_inv_def list_all_iff)
  then show ?thesis
    by (simp add: startImageWrite_def Let_def singleShot_def qDebug_def filter_timerInsert_old)
qed

subsection \<open>Requests leave a session as it is\<close>

text \<open>No request removes, changes or reorders a timer of a session that is under way:
  each of them has either fired or is still pending, in the order of registration.\<close>

lemma own_fresh: "nextTimerId s' \<le> timerId x \<Longrightarrow> \<not> own s s' x"
  by (simp add: own_def)

lemma startImageWrite_nextTimerId:
  "nextTimerId (snd (startImageWrite imagePath drivePath opts s)) = nextTimerId s + 4"
  by (simp add: startImageWrite_def Let_def singleShot_def qDebug_def)

lemma startImageWrite_keeps_own:
  assumes "nextTimerId s' \<le> nextTimerId u"
  shows "filter (own s s') (timers (snd (startImageWrite imagePath drivePath opts u))) =
           filter (own s s') (timers u)"
  using assms
  by (simp add: startImageWrite_def Let_def singleShot_def qDebug_def filter_timerInsert_old
      own_fresh)

lemma perform_keeps_own:
  assumes "nextTimerId s' \<le> nextTimerId u"
  shows "filter (own s s') (fst (perform r u) @ timers (snd (perform r u))) =
           filter (own s s') (timers u) \<and>
         nextTimerId s' \<le> nextTimerId (snd (perform r u))"
proof (cases r)
  case EnumerateRemovableDrives
  with assms show ?thesis by (simp add: enumerateRemovableDrives_def qDebug_def)
next
  case (StartImageWrite imagePath drivePath opts)
  with assms show ?thesis
    by (simp add: startImageWrite_keeps_own startImageWrite_nextTimerId)
next
  case (Wait t)
  have "filter (own s s') (takeWhile (\<lambda>x. deadline x \<le> t) (timers u)) @
        filter (own s s') (dropWhile (\<lambda>x. deadline x \<le> t) (timers u)) =
        filter (own s s') (timers u)"
    by (metis filter_append takeWhile_dropWhile_id)
  with Wait assms show ?thesis by (simp add: advance_def)
qed

lemma performAll_keeps_own:
  "nextTimerId s' \<le> nextTimerId u \<Longrightarrow>
   filter (own s s') (fst (performAll rs u) @ timers (snd (performAll rs u))) =
     filter (own s s') (timers u)"
proof (induction rs arbitrary: u)
  case Nil
  show ?case by simp
next
  case (Cons r rs)
  from perform_keeps_own [OF Cons.prems, of s r]
  have one: "filter (own s s') (fst (perform r u)) @
               filter (own s s') (timers (snd (perform r u))) =
             filter (own s s') (timers u)"
    and later: "nextTimerId s' \<le> nextTimerId (snd (perform r u))"
    by simp_all
  from Cons.IH [OF later]
  have "filter (own s s') (fst (performAll rs (snd (perform r u)))) @
          filter (own s s') (timers (snd (performAll rs (snd (perform r u))))) =
        filter (own s s') (timers (snd (perform r u)))"
    by simp
  with one show ?case by simp
qed

lemma own_scheduled_since:
  assumes "loop_inv s'"
  shows "filter (own s s') (timers s') = scheduled_since s s'"
proof -
  from assms have "\<forall>x \<in> set (timers s'). timerId x < nextTimerId s'"
    by (simp add: loop_inv_def list_all_iff)
  then show ?thesis
    unfolding scheduled_since_def own_def by (intro filter_cong) auto
qed

lemma delivered_session:
  assumes "loop_inv s"
  shows "delivered imagePath drivePath opts s rs = session imagePath drivePath opts s"
proof -
  let ?s' = "snd (startImageWrite imagePath drivePath opts s)"
  have "filter (own s ?s') (fst (performAll rs ?s') @ timers (snd (performAll rs ?s'))) =
        filter (own s ?s') (timers ?s')"
    by (rule performAll_keeps_own) simp
  also have "\<dots> = scheduled_since s ?s'"
    using assms by (simp add: own_scheduled_since loop_inv_startImageWrite)
  finally have "concat (map emits
      (filter (own s ?s') (fst (performAll rs ?s') @ timers (snd (performAll rs ?s'))))) =
      concat (map emits (scheduled_since s ?s'))"
    by (rule arg_cong)
  then show ?thesis
    by (simp only: delivered_def session_def Let_def case_prod_beta)
qed

section \<open>The claims about write sessions\<close>

text \<open>
  Claim C1, as far as the program goes. The progress percentages of a session are the
  constants of the source: 25, 75, 90, 100 in \<^verbatim>\<open>inferno_full_code.cpp\<close> and 25, 75, 100
  in the split \<^verbatim>\<open>DiskUtility.cpp\<close>, whatever the image, the drive, the options and the
  state of the process; both sequences are non-decreasing. They are not computed from a
  count of bytes written: the program has none.
\<close>

theorem progress_percentages_fixed:
  "loop_inv s \<Longrightarrow>
   percentages (session imagePath drivePath opts s) = [25, 75, 90, 100] \<and>
   percentages (session_split imagePath drivePath opts s) = [25, 75, 100] \<and>
   sorted (percentages (session imagePath drivePath opts s)) \<and>
   sorted (percentages (session_split imagePath drivePath opts s))"
  by (simp add: session_signals session_split_signals)

theorem progress_percentages_fixed_witness:
  "loop_inv exampleProcess \<and>
   percentages (session ''/images/tiny.img'' (devicePath drive1) noAdvancedOptions exampleProcess)
     = [25, 75, 90, 100] \<and>
   sorted (percentages
     (session ''/images/tiny.img'' (devicePath drive1) noAdvancedOptions exampleProcess))"
  using progress_percentages_fixed [OF loop_inv_exampleProcess,
      of "''/images/tiny.img''" "devicePath drive1" noAdvancedOptions]
  by (simp add: loop_inv_exampleProcess)

text \<open>
  Claim C1 as stated fails. For an image of one byte the planned total is one byte, and
  the specification's formula can only give 0 (nothing written) or 100 (the byte
  written); the first percentage the session reports is 25.
\<close>

theorem progress_formula_counterexample:
  "fileSize exampleProcess ''/images/tiny.img'' = Some 1 \<and>
   percentages (session ''/images/tiny.img'' (devicePath drive1) noAdvancedOptions exampleProcess)
     ! 0 = 25 \<and>
   spec_percentage 0 1 \<noteq> 25 \<and> spec_percentage 1 1 \<noteq> 25"
proof -
  have "fileSize exampleProcess ''/images/tiny.img'' = Some 1"
    by (simp add: exampleProcess_def)
  then show ?thesis
    by (simp add: session_signals [OF loop_inv_exampleProcess] spec_percentage_def)
qed

text \<open>
  Claim C2. In every write session \<^verbatim>\<open>writeCompleted\<close> is emitted exactly once, and it is
  the last notification of the session: the terminal notifications of the session are
  the one-element list that holds its last notification, so no \<^verbatim>\<open>progressUpdated\<close>
  comes after it.
\<close>

theorem writeCompleted_once_and_last:
  "loop_inv s \<Longrightarrow>
   filter is_terminal (session imagePath drivePath opts s) =
     [last (session imagePath drivePath opts s)] \<and>
   filter is_terminal (session_split imagePath drivePath opts s) =
     [last (session_split imagePath drivePath opts s)]"
  by (simp add: session_signals session_split_signals)

theorem writeCompleted_once_and_last_witness:
  "loop_inv exampleProcess \<and>
   filter is_terminal
     (session ''/images/linux.iso'' (devicePath drive2) noAdvancedOptions exampleProcess) =
     [last (session ''/images/linux.iso'' (devicePath drive2) noAdvancedOptions exampleProcess)]"
  using writeCompleted_once_and_last [OF loop_inv_exampleProcess,
      of "''/images/linux.iso''" "devicePath drive2" noAdvancedOptions]
  by (simp add: loop_inv_exampleProcess)

text \<open>
  Claim C3 as stated fails. The image of 20,000,000,000 bytes does not fit on the first
  drive of 16,000,000,000 bytes, yet \<^verbatim>\<open>startImageWrite\<close> returns true and the session it
  starts ends with \<^verbatim>\<open>writeCompleted(true, "")\<close>.
\<close>

theorem capacity_counterexample:
  "fileSize exampleProcess ''/images/huge.iso'' = Some 20000000000 \<and>
   sizeBytes drive1 = 16000000000 \<and>
   fst (startImageWrite ''/images/huge.iso'' (devicePath drive1) noAdvancedOptions
          exampleProcess) = True \<and>
   last (session ''/images/huge.iso'' (devicePath drive1) noAdvancedOptions exampleProcess)
     = writeCompleted True ''''"
proof -
  have "fileSize exampleProcess ''/images/huge.iso'' = Some 20000000000"
    by (simp add: exampleProcess_def)
  moreover have "sizeBytes drive1 = 16000000000"
    by (simp add: drive1_def)
  ultimately show ?thesis
    by (simp add: session_signals [OF loop_inv_exampleProcess] startImageWrite_returns)
qed

text \<open>
  Claim C3, amended. \<^verbatim>\<open>startImageWrite\<close> makes no capacity check: whatever the sizes of
  the files are, it returns true, and the session it starts is the same and ends with
  \<^verbatim>\<open>writeCompleted(true, "")\<close>.
\<close>

theorem startImageWrite_ignores_capacity:
  "loop_inv s \<Longrightarrow>
   fst (startImageWrite imagePath drivePath opts (s\<lparr>fileSize := f\<rparr>)) = True \<and>
   session imagePath drivePath opts (s\<lparr>fileSize := f\<rparr>) =
     session imagePath drivePath opts s \<and>
   last (session imagePath drivePath opts (s\<lparr>fileSize := f\<rparr>)) = writeCompleted True ''''"
proof -
  assume "loop_inv s"
  moreover from this have "loop_inv (s\<lparr>fileSize := f\<rparr>)" by (simp add: loop_inv_def)
  ultimately show ?thesis by (simp add: session_signals startImageWrite_returns)
qed

theorem startImageWrite_ignores_capacity_witness:
  "loop_inv exampleProcess \<and>
   fst (startImageWrite ''/images/huge.iso'' (devicePath drive1) noAdvancedOptions
         (exampleProcess\<lparr>fileSize := [''/images/huge.iso'' \<mapsto> 1]\<rparr>)) = True \<and>
   last (session ''/images/huge.iso'' (devicePath drive1) noAdvancedOptions
         (exampleProcess\<lparr>fileSize := [''/images/huge.iso'' \<mapsto> 1]\<rparr>)) =
     writeCompleted True ''''"
  using startImageWrite_ignores_capacity [OF loop_inv_exampleProcess,
      of "''/images/huge.iso''" "devicePath drive1" noAdvancedOptions
         "[''/images/huge.iso'' \<mapsto> 1]"]
    loop_inv_exampleProcess
  by blast

text \<open>
  Claim C4 as stated fails. The claim has a request for cancellation lead a writing
  session to a terminal state other than completed. A session is started and, after two
  seconds, has reported 25 percent and is writing. Among the requests the program
  accepts there is none that has the claimed effect: whatever requests follow, the one
  terminal notification of the session is \<^verbatim>\<open>writeCompleted(true, "")\<close>, that is,
  completed.
\<close>

theorem cancel_counterexample:
  "percentages (concat (map emits (fst (perform (Wait 2000)
     (snd (startImageWrite ''/images/linux.iso'' (devicePath drive1) noAdvancedOptions
             exampleProcess)))))) = [25] \<and>
   \<not> (\<exists>rs. filter is_terminal
          (delivered ''/images/linux.iso'' (devicePath drive1) noAdvancedOptions exampleProcess
             (Wait 2000 # rs)) \<noteq> [writeCompleted True ''''])"
proof -
  have "percentages (concat (map emits (fst (perform (Wait 2000)
     (snd (startImageWrite ''/images/linux.iso'' (devicePath drive1) noAdvancedOptions
             exampleProcess)))))) = [25]"
    by (simp add: startImageWrite_def singleShot_def qDebug_def Let_def exampleProcess_def)
  then show ?thesis
    by (simp add: delivered_session [OF loop_inv_exampleProcess]
        session_signals [OF loop_inv_exampleProcess])
qed

text \<open>
  Claim C4, amended. A started session cannot be cancelled. \<^verbatim>\<open>DiskUtility\<close> offers its
  caller \<^verbatim>\<open>enumerateRemovableDrives\<close> and \<^verbatim>\<open>startImageWrite\<close> and nothing else; whatever
  calls of them the caller makes after a session has started, and however long it waits
  in between, the session delivers the notifications it would deliver undisturbed, and
  its one terminal notification is \<^verbatim>\<open>writeCompleted(true, "")\<close>.
\<close>

theorem session_cannot_be_cancelled:
  "loop_inv s \<Longrightarrow>
   delivered imagePath drivePath opts s rs = session imagePath drivePath opts s \<and>
   filter is_terminal (delivered imagePath drivePath opts s rs) = [writeCompleted True '''']"
  by (simp add: delivered_session session_signals)

theorem session_cannot_be_cancelled_witness:
  "loop_inv exampleProcess \<and>
   filter is_terminal
     (delivered ''/images/linux.iso'' (devicePath drive1) noAdvancedOptions exampleProcess
        [Wait 2000, StartImageWrite ''/images/tiny.img'' (devicePath drive1) noAdvancedOptions,
         EnumerateRemovableDrives, Wait 4000]) =
     [writeCompleted True '''']"
  using conjunct2 [OF session_cannot_be_cancelled [OF loop_inv_exampleProcess,
      of "''/images/linux.iso''" "devicePath drive1" noAdvancedOptions
         "[Wait 2000, StartImageWrite ''/images/tiny.img'' (devicePath drive1) noAdvancedOptions,
           EnumerateRemovableDrives, Wait 4000]"]]
    loop_inv_exampleProcess
  by (intro conjI)

text \<open>
  Claim C5 as stated fails. Two writes are started on the same drive, the second while
  the first is under way. Both calls return true, and the event loop delivers two
  terminal notifications, both \<^verbatim>\<open>writeCompleted(true, "")\<close>: neither write is refused.
\<close>

theorem device_busy_counterexample:
  "fst (startImageWrite ''/images/linux.iso'' (devicePath drive1) noAdvancedOptions
          exampleProcess) = True \<and>
   fst (startImageWrite ''/images/tiny.img'' (devicePath drive1) noAdvancedOptions
          (snd (startImageWrite ''/images/linux.iso'' (devicePath drive1) noAdvancedOptions
                  exampleProcess))) = True \<and>
   filter is_terminal
     (fst (drain
        (snd (startImageWrite ''/images/tiny.img'' (devicePath drive1) noAdvancedOptions
          (snd (startImageWrite ''/images/linux.iso'' (devicePath drive1) noAdvancedOptions
                  exampleProcess)))))) =
     [writeCompleted True '''', writeCompleted True '''']"
  by (simp add: drain_def startImageWrite_def singleShot_def qDebug_def Let_def
      exampleProcess_def)

text \<open>
  Claim C5, amended. \<^verbatim>\<open>startImageWrite\<close> keeps no exclusivity per device. When a second
  write is started on the same drive at any time \<open>t\<close> after the first, both calls return
  true, the second call leaves the pending timers of the first as they are, and both
  sessions end with \<^verbatim>\<open>writeCompleted(true, "")\<close>.
\<close>

theorem no_device_exclusivity:
  assumes "loop_inv s"
  shows
    "fst (startImageWrite imagePath1 drivePath opts1 s) = True \<and>
     fst (startImageWrite imagePath2 drivePath opts2
            (snd (advance t (snd (startImageWrite imagePath1 drivePath opts1 s))))) = True \<and>
     filter (\<lambda>x. timerId x <
                 nextTimerId (snd (advance t (snd (startImageWrite imagePath1 drivePath opts1 s)))))
       (timers (snd (startImageWrite imagePath2 drivePath opts2
            (snd (advance t (snd (startImageWrite imagePath1 drivePath opts1 s))))))) =
       timers (snd (advance t (snd (startImageWrite imagePath1 drivePath opts1 s)))) \<and>
     last (session imagePath1 drivePath opts1 s) = writeCompleted True '''' \<and>
     last (session imagePath2 drivePath opts2
            (snd (advance t (snd (startImageWrite imagePath1 drivePath opts1 s))))) =
       writeCompleted True ''''"
proof -
  have "loop_inv (snd (advance t (snd (startImageWrite imagePath1 drivePath opts1 s))))"
    using assms by (simp add: loop_inv_startImageWrite loop_inv_advance)
  with assms show ?thesis
    by (simp add: startImageWrite_returns startImageWrite_keeps_timers session_signals)
qed

theorem no_device_exclusivity_witness:
  "loop_inv exampleProcess \<and>
   fst (startImageWrite ''/images/linux.iso'' (devicePath drive1) noAdvancedOptions
          exampleProcess) = True \<and>
   fst (startImageWrite ''/images/tiny.img'' (devicePath drive1) noAdvancedOptions
          (snd (advance 500
             (snd (startImageWrite ''/images/linux.iso'' (devicePath drive1) noAdvancedOptions
                exampleProcess))))) = True"
  using no_device_exclusivity [OF loop_inv_exampleProcess,
      of "''/images/linux.iso''" "devicePath drive1" noAdvancedOptions
         "''/images/tiny.img''" noAdvancedOptions 500]
  by (simp add: loop_inv_exampleProcess)

text \<open>
  Claim C6. An image of 4,294,967,296 bytes is written to the first drive, whose size is
  16,000,000,000 bytes, with no advanced option: the call returns true, the session ends
  with the success notification \<^verbatim>\<open>writeCompleted(true, "")\<close>, and the last percentage
  reported is 100. This holds for both copies of \<^verbatim>\<open>startImageWrite\<close>.
\<close>

theorem four_gib_scenario:
  "loop_inv s \<Longrightarrow> fileSize s imagePath = Some 4294967296 \<Longrightarrow>
   sizeBytes drive1 = 16000000000 \<and>
   fst (startImageWrite imagePath (devicePath drive1) noAdvancedOptions s) = True \<and>
   last (session imagePath (devicePath drive1) noAdvancedOptions s) = writeCompleted True '''' \<and>
   last (percentages (session imagePath (devicePath drive1) noAdvancedOptions s)) = 100 \<and>
   fst (startImageWrite_split imagePath (devicePath drive1) noAdvancedOptions s) = True \<and>
   last (session_split imagePath (devicePath drive1) noAdvancedOptions s) =
     writeCompleted True '''' \<and>
   last (percentages (session_split imagePath (devicePath drive1) noAdvancedOptions s)) = 100"
proof -
  assume "loop_inv s"
  moreover have "sizeBytes drive1 = 16000000000" by (simp add: drive1_def)
  ultimately show ?thesis
    by (simp add: session_signals session_split_signals startImageWrite_returns
        startImageWrite_split_returns)
qed

theorem four_gib_scenario_witness:
  "loop_inv exampleProcess \<and>
   fileSize exampleProcess ''/images/linux.iso'' = Some 4294967296 \<and>
   last (session ''/images/linux.iso'' (devicePath drive1) noAdvancedOptions exampleProcess) =
     writeCompleted True '''' \<and>
   last (percentages
     (session ''/images/linux.iso'' (devicePath drive1) noAdvancedOptions exampleProcess)) = 100"
proof -
  have size: "fileSize exampleProcess ''/images/linux.iso'' = Some 4294967296"
    by (simp add: exampleProcess_def)
  from four_gib_scenario [OF loop_inv_exampleProcess size] loop_inv_exampleProcess size
  show ?thesis by blast
qed

text \<open>
  Claim C8. For every image path, drive path and options, \<^verbatim>\<open>startImageWrite\<close> returns
  true, and the only terminal notification of the session it starts is
  \<^verbatim>\<open>writeCompleted(true, "")\<close>: no input reaches a failure notification. This holds
  for both copies of \<^verbatim>\<open>startImageWrite\<close>.
\<close>

theorem startImageWrite_always_succeeds:
  "loop_inv s \<Longrightarrow>
   fst (startImageWrite imagePath drivePath opts s) = True \<and>
   fst (startImageWrite_split imagePath drivePath opts s) = True \<and>
   filter is_terminal (session imagePath drivePath opts s) = [writeCompleted True ''''] \<and>
   filter is_terminal (session_split imagePath drivePath opts s) = [writeCompleted True '''']"
  by (simp add: session_signals session_split_signals startImageWrite_returns
      startImageWrite_split_returns)

theorem startImageWrite_always_succeeds_witness:
  "loop_inv exampleProcess \<and>
   fst (startImageWrite '''' '''' Map.empty exampleProcess) = True \<and>
   filter is_terminal (session '''' '''' Map.empty exampleProcess) = [writeCompleted True '''']"
  using startImageWrite_always_succeeds [OF loop_inv_exampleProcess, of "''''" "''''" Map.empty]
    loop_inv_exampleProcess
  by blast

section \<open>The claims about drive enumeration\<close>

text \<open>
  Claim C7 as stated fails in its second half. When the platform's device layer is
  unavailable and when it reports no device at all, \<^verbatim>\<open>enumerateRemovableDrives\<close>
  returns the same list of two drives: a failed enumeration and an empty one cannot be
  told apart, and neither is ever reported.
\<close>

theorem enumeration_failure_counterexample:
  "fst (enumerateRemovableDrives (exampleProcess\<lparr>blockDevices := Inl EnumerationError\<rparr>)) =
     [drive1, drive2] \<and>
   fst (enumerateRemovableDrives (exampleProcess\<lparr>blockDevices := Inr []\<rparr>)) =
     [drive1, drive2]"
  by (simp add: enumerateRemovableDrives_def)

text \<open>
  Claim C7, amended. Every descriptor that \<^verbatim>\<open>enumerateRemovableDrives\<close> returns has its
  removable flag set; the list is never empty, and it does not depend on what the
  platform's device layer would report, so the operation has neither an empty nor a
  failed result.
\<close>

theorem enumerated_all_removable:
  "list_all isRemovable (fst (enumerateRemovableDrives s)) \<and>
   fst (enumerateRemovableDrives s) \<noteq> [] \<and>
   fst (enumerateRemovableDrives (s\<lparr>blockDevices := b\<rparr>)) = fst (enumerateRemovableDrives s)"
  by (simp add: enumerateRemovableDrives_def drive1_def drive2_def)

text \<open>
  Claim C9. \<^verbatim>\<open>enumerateRemovableDrives\<close> returns the same list in any two states of the
  process: two drives, \<^verbatim>\<open>PhysicalDrive1\<close> of 16,000,000,000 bytes and
  \<^verbatim>\<open>PhysicalDrive2\<close> of 32,000,000,000 bytes, both marked removable.
\<close>

theorem enumerateRemovableDrives_constant:
  "fst (enumerateRemovableDrives s) = fst (enumerateRemovableDrives s') \<and>
   length (fst (enumerateRemovableDrives s)) = 2 \<and>
   map devicePath (fst (enumerateRemovableDrives s)) =
     [[backslash, backslash, CHR ''.'', backslash] @ ''PhysicalDrive1'',
      [backslash, backslash, CHR ''.'', backslash] @ ''PhysicalDrive2''] \<and>
   map sizeBytes (fst (enumerateRemovableDrives s)) = [16000000000, 32000000000] \<and>
   map isRemovable (fst (enumerateRemovableDrives s)) = [True, True]"
  by (simp add: enumerateRemovableDrives_def drive1_def drive2_def)

section \<open>The claim about the start button\<close>

lemma newInfernoWindow_combo: "combo_inv (fst (newInfernoWindow s))"
  by (simp add: combo_inv_def newInfernoWindow_def updateDriveList_def enumerateRemovableDrives_def
      Let_def clear_def addItem_def setEnabled_def setupUI_def driveEntries_def)

lemma newInfernoWindow_enabled: "enabled (driveComboBox (fst (newInfernoWindow s)))"
  by (simp add: newInfernoWindow_def updateDriveList_def enumerateRemovableDrives_def
      Let_def clear_def addItem_def setEnabled_def setupUI_def)

lemma deliver_combo: "driveComboBox (deliver w sg) = driveComboBox w"
  by (cases sg)
    (simp_all add: handleProgressUpdate_def handleWriteCompletion_def Let_def showMessageBox_def)

lemma foldl_deliver_combo: "driveComboBox (foldl deliver w sgs) = driveComboBox w"
  by (induction sgs arbitrary: w) (simp_all add: deliver_combo)

lemma startBurningProcess_combo:
  "driveComboBox (fst (startBurningProcess reply (w, s))) = driveComboBox w"
  by (simp add: startBurningProcess_def Let_def showMessageBox_def split: prod.splits)

lemma selectDiskImage_combo: "driveComboBox (selectDiskImage chosen w) = driveComboBox w"
  by (simp add: selectDiskImage_def)

lemma reachable_combo_inv: "reachable ws \<Longrightarrow> combo_inv (fst ws)"
proof (induction rule: reachable.induct)
  case (construct s)
  show ?case by (rule newInfernoWindow_combo)
next
  case (pick w s i)
  then show ?case by (simp add: combo_inv_def driveEntries_def)
next
  case (choose w s chosen)
  then show ?case by (simp add: combo_inv_def selectDiskImage_combo)
next
  case (click w s reply)
  then show ?case by (simp add: combo_inv_def startBurningProcess_combo)
next
  case (toggle w s b)
  then show ?case by (simp add: combo_inv_def toggleAdvancedOptions_def)
next
  case (check w s p m b)
  then show ?case by (simp add: combo_inv_def)
next
  case (wait w s t)
  then show ?case by (simp add: combo_inv_def foldl_deliver_combo)
qed

lemma startImageWrite_debugLog:
  "debugLog (snd (startImageWrite imagePath drivePath opts s)) =
     debugLog s @ [DebugStartingWrite imagePath drivePath, DebugOptions opts]"
  by (simp add: startImageWrite_def Let_def singleShot_def qDebug_def)

lemma startImageWrite_changes: "snd (startImageWrite imagePath drivePath opts s) \<noteq> s"
proof
  assume "snd (startImageWrite imagePath drivePath opts s) = s"
  then have "debugLog (snd (startImageWrite imagePath drivePath opts s)) = debugLog s"
    by simp
  then show False by (simp add: startImageWrite_debugLog)
qed

lemma startBurningProcess_process:
  "snd (startBurningProcess reply (w, s)) =
     (if currentIndex (driveComboBox w) \<noteq> 0 \<and> isoPathLabel w \<noteq> ''No image selected.'' \<and>
         reply \<noteq> No
      then snd (startImageWrite (isoPathLabel w) (toString (currentData (driveComboBox w)))
                  (gatherOptions w) s)
      else s)"
  by (simp add: startBurningProcess_def Let_def split: prod.splits)

lemma combo_inv_currentData:
  assumes "combo_inv w" and "0 < currentIndex (driveComboBox w)"
  shows "toString (currentData (driveComboBox w)) \<in> {devicePath drive1, devicePath drive2}"
proof -
  from assms have "currentIndex (driveComboBox w) = 1 \<or> currentIndex (driveComboBox w) = 2"
    by (auto simp: combo_inv_def)
  with assms(1) show ?thesis
    by (auto simp: combo_inv_def currentData_def driveEntries_def)
qed

text \<open>The window reaches the process through the requests only: its constructor
  enumerates the drives, \<^verbatim>\<open>startBurningProcess\<close> calls \<^verbatim>\<open>startImageWrite\<close> or leaves the
  process alone, and no other slot touches the process. So every process the
  application can be in is the result of requests.\<close>

lemma advance_request:
  "fst (advance t s) = concat (map emits (fst (perform (Wait t) s)))"
  "snd (advance t s) = snd (perform (Wait t) s)"
  by (simp_all add: advance_def)

lemma newInfernoWindow_request:
  "snd (newInfernoWindow s) = snd (perform EnumerateRemovableDrives s)"
  by (simp add: newInfernoWindow_def updateDriveList_def enumerateRemovableDrives_def Let_def)

lemma startBurningProcess_request:
  "snd (startBurningProcess reply (w, s)) =
     snd (performAll
       (if currentIndex (driveComboBox w) \<noteq> 0 \<and> isoPathLabel w \<noteq> ''No image selected.'' \<and>
           reply \<noteq> No
        then [StartImageWrite (isoPathLabel w) (toString (currentData (driveComboBox w)))
                (gatherOptions w)]
        else []) s)"
  by (simp add: startBurningProcess_process)

lemma performAll_append:
  "snd (performAll (rs @ rs') s) = snd (performAll rs' (snd (performAll rs s)))"
  by (induction rs arbitrary: s) simp_all

lemma reachable_by_requests:
  "reachable ws \<Longrightarrow> \<exists>s0 rs. timers s0 = [] \<and> snd ws = snd (performAll rs s0)"
proof (induction rule: reachable.induct)
  case (construct s)
  have "snd (newInfernoWindow s) = snd (performAll [EnumerateRemovableDrives] s)"
    by (simp add: newInfernoWindow_request)
  with construct show ?case by blast
next
  case (click w s reply)
  then obtain s0 rs where "timers s0 = []" and "s = snd (performAll rs s0)"
    by auto
  then have "snd (startBurningProcess reply (w, s)) =
      snd (performAll (rs @
        (if currentIndex (driveComboBox w) \<noteq> 0 \<and> isoPathLabel w \<noteq> ''No image selected.'' \<and>
            reply \<noteq> No
         then [StartImageWrite (isoPathLabel w) (toString (currentData (driveComboBox w)))
                 (gatherOptions w)]
         else [])) s0)"
    by (simp only: performAll_append startBurningProcess_request)
  with \<open>timers s0 = []\<close> show ?case by blast
next
  case (wait w s t)
  then obtain s0 rs where "timers s0 = []" and "s = snd (performAll rs s0)"
    by auto
  then have "snd (advance t s) = snd (performAll (rs @ [Wait t]) s0)"
    by (simp add: performAll_append advance_def)
  with \<open>timers s0 = []\<close> show ?case
    unfolding snd_conv by blast
qed auto

text \<open>The invariant of the event loop holds in every state of the application.\<close>

lemma reachable_loop_inv: "reachable ws \<Longrightarrow> loop_inv (snd ws)"
proof (induction rule: reachable.induct)
  case (construct s)
  then show ?case
    by (simp add: newInfernoWindow_def updateDriveList_def enumerateRemovableDrives_def Let_def
        loop_inv_def qDebug_def)
next
  case (click w s reply)
  then show ?case
    by (simp add: startBurningProcess_process loop_inv_startImageWrite)
next
  case (wait w s t)
  then show ?case by (simp add: loop_inv_advance)
qed simp_all

text \<open>The example window is a state of the application.\<close>

lemma reachable_exampleWindow: "reachable exampleWindow"
proof -
  obtain w0 s0 where new: "newInfernoWindow exampleProcess = (w0, s0)"
    by force
  have "reachable (newInfernoWindow exampleProcess)"
    by (rule reachable.construct) (simp add: exampleProcess_def)
  with new have r0: "reachable (w0, s0)" by simp
  from newInfernoWindow_combo [of exampleProcess] newInfernoWindow_enabled [of exampleProcess] new
  have "enabled (driveComboBox w0)" and "1 < int (length (items (driveComboBox w0)))"
    by (simp_all add: combo_inv_def driveEntries_def)
  with r0 have "reachable (w0\<lparr>driveComboBox := (driveComboBox w0)\<lparr>currentIndex := 1\<rparr>\<rparr>, s0)"
    by (intro reachable.pick) simp_all
  then have "reachable
     (selectDiskImage ''/images/linux.iso''
        (w0\<lparr>driveComboBox := (driveComboBox w0)\<lparr>currentIndex := 1\<rparr>\<rparr>), s0)"
    by (rule reachable.choose)
  with new show ?thesis by (simp add: exampleWindow_def Let_def)
qed

lemma exampleWindow_fields:
  "currentIndex (driveComboBox (fst exampleWindow)) = 1"
  "isoPathLabel (fst exampleWindow) = ''/images/linux.iso''"
  "currentData (driveComboBox (fst exampleWindow)) = String (devicePath drive1)"
  "gatherOptions (fst exampleWindow) = noAdvancedOptions"
  by (simp_all add: exampleWindow_def newInfernoWindow_def updateDriveList_def
      enumerateRemovableDrives_def Let_def clear_def addItem_def setEnabled_def setupUI_def
      selectDiskImage_def currentData_def gatherOptions_def noAdvancedOptions_def
      split: prod.splits)

text \<open>
  Claim C10. In every state the application can be in, \<^verbatim>\<open>startBurningProcess\<close> calls
  \<^verbatim>\<open>startImageWrite\<close> exactly when the index of the combo box is greater than 0, the
  image label is not \<open>No image selected.\<close> and the user answers Yes; otherwise the
  process is left as it was, so no write is started. A call of \<^verbatim>\<open>startImageWrite\<close>
  always changes the process, so an unchanged process means that there was no call.
  With an index greater than 0 the drive path handed over is the device path of one of
  the enumerated drives.

  The source tests \<^verbatim>\<open>currentIndex() == 0\<close>; the index is never negative in a state the
  application can be in, which makes the test the same as the comment's
  \<open>index > 0\<close>.
\<close>

theorem startBurningProcess_guard:
  assumes "reachable (w, s)"
  shows
    "snd (startBurningProcess reply (w, s)) =
       (if 0 < currentIndex (driveComboBox w) \<and> isoPathLabel w \<noteq> ''No image selected.'' \<and>
           reply = Yes
        then snd (startImageWrite (isoPathLabel w) (toString (currentData (driveComboBox w)))
                    (gatherOptions w) s)
        else s) \<and>
     snd (startImageWrite imagePath drivePath opts s) \<noteq> s \<and>
     (0 < currentIndex (driveComboBox w) \<longrightarrow>
        toString (currentData (driveComboBox w)) \<in>
          devicePath ` set (fst (enumerateRemovableDrives s)))"
proof -
  from assms have inv: "combo_inv w"
    using reachable_combo_inv by fastforce
  then have "0 \<le> currentIndex (driveComboBox w)"
    by (simp add: combo_inv_def)
  then have idx: "currentIndex (driveComboBox w) \<noteq> 0 \<longleftrightarrow> 0 < currentIndex (driveComboBox w)"
    by arith
  have rep: "reply \<noteq> No \<longleftrightarrow> reply = Yes"
    by (cases reply) simp_all
  have "fst (enumerateRemovableDrives s) = [drive1, drive2]"
    by (simp add: enumerateRemovableDrives_def)
  with inv combo_inv_currentData [of w] show ?thesis
    by (auto simp: startBurningProcess_process idx rep startImageWrite_changes)
qed

theorem startBurningProcess_guard_witness:
  "reachable (fst exampleWindow, snd exampleWindow) \<and>
   snd (startBurningProcess Yes (fst exampleWindow, snd exampleWindow)) =
     snd (startImageWrite ''/images/linux.iso'' (devicePath drive1) noAdvancedOptions
            (snd exampleWindow)) \<and>
   snd (startBurningProcess No (fst exampleWindow, snd exampleWindow)) = snd exampleWindow"
proof -
  have r: "reachable (fst exampleWindow, snd exampleWindow)"
    using reachable_exampleWindow by simp
  from startBurningProcess_guard [OF r, of Yes] startBurningProcess_guard [OF r, of No] r
  show ?thesis by (simp add: exampleWindow_fields)
qed

text \<open>
  Reachability matters: a window whose combo box had no current entry (index \<open>-1\<close>)
  would pass the first test of \<^verbatim>\<open>startBurningProcess\<close>, and the write would start with
  an empty drive path. The constructor rules this out.
\<close>

lemma no_current_entry_starts_write:
  assumes "currentIndex (driveComboBox w) = - 1"
    and "isoPathLabel w \<noteq> ''No image selected.''"
  shows "snd (startBurningProcess Yes (w, s)) =
           snd (startImageWrite (isoPathLabel w) [] (gatherOptions w) s)"
  using assms by (simp add: startBurningProcess_process currentData_def)

end
